theory Spec2Isabelle
  imports Complex_Main
begin

section \<open>Python containers used by the surveillance pipeline\<close>

text \<open>
  A Python \<open>dict\<close> keeps its keys in insertion order and holds each key once.
  It is modelled as an association list: assigning to a key that is present
  replaces the value where it stands, assigning to a new key appends it, and
  \<open>del\<close> removes the entry.
\<close>

type_synonym ('k, 'v) dict = "('k \<times> 'v) list"

fun dict_get :: "('k, 'v) dict \<Rightarrow> 'k \<Rightarrow> 'v option" where
  "dict_get [] k = None"
| "dict_get ((a, v) # d) k = (if a = k then Some v else dict_get d k)"

fun dict_set :: "('k, 'v) dict \<Rightarrow> 'k \<Rightarrow> 'v \<Rightarrow> ('k, 'v) dict" where
  "dict_set [] k v = [(k, v)]"
| "dict_set ((a, w) # d) k v = (if a = k then (a, v) # d else (a, w) # dict_set d k v)"

fun dict_del :: "('k, 'v) dict \<Rightarrow> 'k \<Rightarrow> ('k, 'v) dict" where
  "dict_del [] k = []"
| "dict_del ((a, w) # d) k = (if a = k then d else (a, w) # dict_del d k)"

text \<open>
  \<open>queue.Queue(maxsize)\<close> of the standard library: \<open>put(item, block=False)\<close>
  raises \<open>Full\<close> when \<open>maxsize > 0\<close> and the queue already holds \<open>maxsize\<close> items;
  a \<open>maxsize\<close> of zero or less means an unbounded queue.
\<close>

datatype queue_error = Full | Empty

record 'a py_queue =
  maxsize :: int
  items :: "'a list"

definition Queue :: "int \<Rightarrow> 'a py_queue" where
  "Queue n = \<lparr>maxsize = n, items = []\<rparr>"

definition put_nowait :: "'a py_queue \<Rightarrow> 'a \<Rightarrow> queue_error + 'a py_queue" where
  "put_nowait q x =
     (if 0 < maxsize q \<and> maxsize q \<le> int (length (items q)) then Inl Full
      else Inr (q\<lparr>items := items q @ [x]\<rparr>))"

text \<open>
  \<open>collections.deque(maxlen=n)\<close>: \<open>append\<close> adds on the right and, when the
  length then exceeds \<open>maxlen\<close>, drops the leftmost element.
\<close>

record 'a deque =
  maxlen :: nat
  elems :: "'a list"

definition deque_new :: "nat \<Rightarrow> 'a deque" where
  "deque_new n = \<lparr>maxlen = n, elems = []\<rparr>"

definition deque_append :: "'a deque \<Rightarrow> 'a \<Rightarrow> 'a deque" where
  "deque_append d x =
     (let xs = elems d @ [x]
      in if maxlen d < length xs then d\<lparr>elems := tl xs\<rparr> else d\<lparr>elems := xs\<rparr>)"

section \<open>utils/zone\_manager.py\<close>

type_synonym point = "int \<times> int"
type_synonym colour = "int \<times> int \<times> int"

datatype polygon = Polygon "point list"

text \<open>
  \<open>Polygon.contains(Point)\<close> of the geometry library holds when the point lies in
  the interior of the ring through the given vertices (closed from the last vertex
  back to the first); a point on the boundary is not contained. The interior is
  decided by counting the edges that a ray from the point towards larger \<open>x\<close>
  crosses. Coordinates are pixel positions, hence integers.
\<close>

definition cross :: "point \<Rightarrow> point \<Rightarrow> point \<Rightarrow> int" where
  "cross a b p = (fst b - fst a) * (snd p - snd a) - (snd b - snd a) * (fst p - fst a)"

definition on_segment :: "point \<Rightarrow> point \<Rightarrow> point \<Rightarrow> bool" where
  "on_segment a b p \<longleftrightarrow>
     cross a b p = 0 \<and>
     min (fst a) (fst b) \<le> fst p \<and> fst p \<le> max (fst a) (fst b) \<and>
     min (snd a) (snd b) \<le> snd p \<and> snd p \<le> max (snd a) (snd b)"

definition ray_crosses :: "point \<Rightarrow> point \<Rightarrow> point \<Rightarrow> bool" where
  "ray_crosses a b p \<longleftrightarrow>
     (snd a \<le> snd p \<and> snd p < snd b \<and> 0 < cross a b p) \<or>
     (snd b \<le> snd p \<and> snd p < snd a \<and> cross a b p < 0)"

fun ring_edges :: "point \<Rightarrow> point list \<Rightarrow> (point \<times> point) list" where
  "ring_edges first [] = []"
| "ring_edges first [a] = [(a, first)]"
| "ring_edges first (a # b # ps) = (a, b) # ring_edges first (b # ps)"

definition edges :: "point list \<Rightarrow> (point \<times> point) list" where
  "edges ps = (case ps of [] \<Rightarrow> [] | a # _ \<Rightarrow> ring_edges a ps)"

fun contains :: "polygon \<Rightarrow> point \<Rightarrow> bool" where
  "contains (Polygon ps) p \<longleftrightarrow>
     \<not> list_ex (\<lambda>(a, b). on_segment a b p) (edges ps) \<and>
     odd (length (filter (\<lambda>(a, b). ray_crosses a b p) (edges ps)))"

record zone =
  name :: string
  polygon :: polygon
  points :: "point list"
  color :: colour
  alert_enabled :: bool

text \<open>One entry of the \<open>zones\<close> section of the configuration; every key may be absent.\<close>

record zone_config =
  cfg_name :: "string option"
  cfg_points :: "point list option"
  cfg_color :: "colour option"
  cfg_alert_enabled :: "bool option"

type_synonym zones = "(string, zone) dict"

definition get_default :: "'a option \<Rightarrow> 'a \<Rightarrow> 'a" where
  "get_default v d = (case v of None \<Rightarrow> d | Some x \<Rightarrow> x)"

fun load_zones :: "zones \<Rightarrow> (string, zone_config) dict \<Rightarrow> zones" where
  "load_zones zs [] = zs"
| "load_zones zs ((zone_id, zone_data) # rest) =
     (let pts = get_default (cfg_points zone_data) []
      in if length pts < 3 then load_zones zs rest
         else load_zones
                (dict_set zs zone_id
                   \<lparr>name = get_default (cfg_name zone_data) zone_id,
                    polygon = Polygon pts,
                    points = pts,
                    color = get_default (cfg_color zone_data) (0, 0, 255),
                    alert_enabled = get_default (cfg_alert_enabled zone_data) True\<rparr>)
                rest)"

definition ZoneManager :: "(string, zone_config) dict \<Rightarrow> zones" where
  "ZoneManager zones_config = load_zones [] zones_config"

fun check_point_in_zones :: "zones \<Rightarrow> point \<Rightarrow> string option" where
  "check_point_in_zones [] p = None"
| "check_point_in_zones ((zone_id, zone_data) # rest) p =
     (if \<not> alert_enabled zone_data then check_point_in_zones rest p
      else if contains (polygon zone_data) p then Some zone_id
      else check_point_in_zones rest p)"

definition update_zone ::
  "zones \<Rightarrow> string \<Rightarrow> point list option \<Rightarrow> bool option \<Rightarrow> colour option \<Rightarrow> bool \<times> zones" where
  "update_zone zs zone_id pts ae col =
     (case dict_get zs zone_id of
        None \<Rightarrow> (False, zs)
      | Some z \<Rightarrow>
          (let z1 = (case pts of
                       None \<Rightarrow> z
                     | Some ps \<Rightarrow> if 3 \<le> length ps
                                 then z\<lparr>points := ps, polygon := Polygon ps\<rparr> else z);
               z2 = (case ae of None \<Rightarrow> z1 | Some a \<Rightarrow> z1\<lparr>alert_enabled := a\<rparr>);
               z3 = (case col of None \<Rightarrow> z2 | Some c \<Rightarrow> z2\<lparr>color := c\<rparr>)
           in (True, dict_set zs zone_id z3)))"

definition add_zone ::
  "zones \<Rightarrow> string \<Rightarrow> string \<Rightarrow> point list \<Rightarrow> colour option \<Rightarrow> bool option \<Rightarrow> bool \<times> zones" where
  "add_zone zs zone_id nm pts col ae =
     (if dict_get zs zone_id \<noteq> None \<or> length pts < 3 then (False, zs)
      else (True,
            dict_set zs zone_id
              \<lparr>name = nm,
               polygon = Polygon pts,
               points = pts,
               color = get_default col (0, 0, 255),
               alert_enabled = get_default ae True\<rparr>))"

definition remove_zone :: "zones \<Rightarrow> string \<Rightarrow> bool \<times> zones" where
  "remove_zone zs zone_id =
     (if dict_get zs zone_id = None then (False, zs) else (True, dict_del zs zone_id))"

text \<open>
  The property every stored zone is meant to have: at least three points, and a
  polygon built from them.
\<close>

definition zones_ok :: "zones \<Rightarrow> bool" where
  "zones_ok zs = list_all (\<lambda>(k, z). 3 \<le> length (points z) \<and> polygon z = Polygon (points z)) zs"

section \<open>src/intruder\_detection.py: detections\<close>

text \<open>
  A box as \<open>process_results\<close> sees it: the four corner coordinates after
  \<open>map(int, box.xyxy[0])\<close>, the confidence and the class id.
\<close>

record box =
  xyxy :: "int \<times> int \<times> int \<times> int"
  conf :: real
  cls :: nat

record detection =
  bbox :: "int \<times> int \<times> int \<times> int"
  confidence :: real
  class_id :: nat
  class_name :: string
  zone_id :: string
  timestamp :: string

text \<open>Python's truth value of the result of \<open>check_point_in_zones\<close> in \<open>if zone_id:\<close>.\<close>

definition truthy :: "string option \<Rightarrow> bool" where
  "truthy z = (case z of None \<Rightarrow> False | Some s \<Rightarrow> s \<noteq> [])"

definition feet_point :: "int \<times> int \<times> int \<times> int \<Rightarrow> point" where
  "feet_point b = (case b of (x1, y1, x2, y2) \<Rightarrow> ((x1 + x2) div 2, y2))"

text \<open>
  The loop of \<open>process_results\<close> over the boxes. \<open>names\<close> is the detector's table of
  class names, \<open>clock i\<close> the reading of \<open>datetime.now()\<close> while box \<open>i\<close> is handled.
  Drawing on the frame is left to the rendering library and not part of the model.
\<close>

fun process_boxes ::
  "zones \<Rightarrow> nat list \<Rightarrow> (nat \<Rightarrow> string) \<Rightarrow> (nat \<Rightarrow> string) \<Rightarrow> nat \<Rightarrow> box list \<Rightarrow> detection list" where
  "process_boxes zs target_classes names clock i [] = []"
| "process_boxes zs target_classes names clock i (b # bs) =
     (case xyxy b of (x1, y1, x2, y2) \<Rightarrow>
        if cls b \<in> set target_classes then
          (let feet_x = (x1 + x2) div 2;
               feet_y = y2;
               detection_point = (feet_x, feet_y);
               zid = check_point_in_zones zs detection_point
           in if truthy zid
              then \<lparr>bbox = (x1, y1, x2, y2), confidence = conf b, class_id = cls b,
                    class_name = names (cls b), zone_id = the zid, timestamp = clock i\<rparr>
                   # process_boxes zs target_classes names clock (Suc i) bs
              else process_boxes zs target_classes names clock (Suc i) bs)
        else process_boxes zs target_classes names clock (Suc i) bs)"

definition process_results ::
  "zones \<Rightarrow> nat list \<Rightarrow> (nat \<Rightarrow> string) \<Rightarrow> (nat \<Rightarrow> string) \<Rightarrow> box list \<Rightarrow> detection list" where
  "process_results zs target_classes names clock boxes =
     process_boxes zs target_classes names clock 0 boxes"

section \<open>utils/alert\_manager.py\<close>

datatype frame = Frame "nat list"

datatype channel = Email | Telegram

text \<open>
  What \<open>send_alert\<close> does to the outside world: the image written by \<open>cv2.imwrite\<close>,
  the metadata written by \<open>json.dump\<close>, and the threads it starts for the channels.
\<close>

datatype effect =
    ImWrite string frame
  | JsonDump string "detection list"
  | ThreadStart channel string "detection list"

text \<open>
  The manager's fields, the state of \<open>alert_lock\<close>, and the effects so far, each
  recorded with the state of the lock at the moment it happened.
\<close>

record alert_manager =
  enabled :: bool
  cooldown_seconds :: real
  last_alert_time :: real
  lock_held :: bool
  email_enabled :: bool
  telegram_enabled :: bool
  alerts_dir :: string
  trace :: "(bool \<times> effect) list"

record alerts_config =
  cfg_enabled :: "bool option"
  cfg_cooldown_seconds :: "real option"
  cfg_email_enabled :: "bool option"
  cfg_telegram_enabled :: "bool option"
  cfg_history_dir :: "string option"

definition AlertManager :: "alerts_config \<Rightarrow> alert_manager" where
  "AlertManager c =
     \<lparr>enabled = get_default (cfg_enabled c) True,
      cooldown_seconds = get_default (cfg_cooldown_seconds c) 60,
      last_alert_time = 0,
      lock_held = False,
      email_enabled = get_default (cfg_email_enabled c) False,
      telegram_enabled = get_default (cfg_telegram_enabled c) False,
      alerts_dir = get_default (cfg_history_dir c) ''logs/alerts'',
      trace = []\<rparr>"

definition acquire :: "alert_manager \<Rightarrow> alert_manager" where
  "acquire am = am\<lparr>lock_held := True\<rparr>"

definition release :: "alert_manager \<Rightarrow> alert_manager" where
  "release am = am\<lparr>lock_held := False\<rparr>"

definition emit :: "effect \<Rightarrow> alert_manager \<Rightarrow> alert_manager" where
  "emit e am = am\<lparr>trace := trace am @ [(lock_held am, e)]\<rparr>"

text \<open>
  \<open>send_alert\<close>, with the reading of \<open>time.time()\<close> as \<open>current_time\<close> and the
  formatted \<open>datetime.now()\<close> as \<open>stamp\<close>. The body of the \<open>with self.alert_lock\<close>
  block runs between \<open>acquire\<close> and \<open>release\<close>; both returns inside it release.
\<close>

definition send_alert ::
  "alert_manager \<Rightarrow> real \<Rightarrow> string \<Rightarrow> frame \<Rightarrow> detection list \<Rightarrow> bool \<times> alert_manager" where
  "send_alert am current_time stamp frm detections =
     (if \<not> enabled am then (False, am)
      else
        (let am1 = acquire am
         in if current_time - last_alert_time am1 < cooldown_seconds am1
            then (False, release am1)
            else
              (let am2 = am1\<lparr>last_alert_time := current_time\<rparr>;
                   alert_img_path = alerts_dir am2 @ ''/alert_'' @ stamp @ ''.jpg'';
                   am3 = emit (ImWrite alert_img_path frm) am2;
                   alert_meta_path = alerts_dir am3 @ ''/alert_'' @ stamp @ ''.json'';
                   am4 = emit (JsonDump alert_meta_path detections) am3;
                   am5 = (if email_enabled am4
                          then emit (ThreadStart Email alert_img_path detections) am4
                          else am4);
                   am6 = (if telegram_enabled am5
                          then emit (ThreadStart Telegram alert_img_path detections) am5
                          else am5)
               in (True, release am6))))"

definition is_image :: "effect \<Rightarrow> bool" where
  "is_image e = (case e of ImWrite _ _ \<Rightarrow> True | _ \<Rightarrow> False)"

definition is_metadata :: "effect \<Rightarrow> bool" where
  "is_metadata e = (case e of JsonDump _ _ \<Rightarrow> True | _ \<Rightarrow> False)"

section \<open>src/intruder\_detection.py: the queues between the stages\<close>

record pipeline =
  frame_queue :: "frame py_queue"
  result_queue :: "(frame \<times> detection list) py_queue"
  running :: bool
  frame_count :: nat
  reconnect_on_failure :: bool

definition IntruderDetectionSystem :: "int \<Rightarrow> bool \<Rightarrow> pipeline" where
  "IntruderDetectionSystem queue_size reconnect =
     \<lparr>frame_queue = Queue queue_size, result_queue = Queue queue_size,
      running = False, frame_count = 0, reconnect_on_failure = reconnect\<rparr>"

text \<open>
  One turn of the loop of \<open>capture_frames\<close>; \<open>rd\<close> is what \<open>cap.read()\<close> gave:
  \<open>None\<close> for a failed read, \<open>Some frame\<close> otherwise.
\<close>

definition capture_step :: "pipeline \<Rightarrow> frame option \<Rightarrow> pipeline" where
  "capture_step s rd =
     (case rd of
        None \<Rightarrow> if reconnect_on_failure s then s else s\<lparr>running := False\<rparr>
      | Some frm \<Rightarrow>
          (let s1 = (case put_nowait (frame_queue s) frm of
                       Inr q \<Rightarrow> s\<lparr>frame_queue := q\<rparr>
                     | Inl _ \<Rightarrow> s)
           in s1\<lparr>frame_count := frame_count s1 + 1\<rparr>))"

text \<open>
  The loop of \<open>capture_frames\<close> over the successive results of \<open>cap.read()\<close>: it goes
  on while \<open>running\<close> holds. The pacing sleep changes no state.
\<close>

fun capture_frames :: "pipeline \<Rightarrow> frame option list \<Rightarrow> pipeline" where
  "capture_frames s [] = s"
| "capture_frames s (rd # rds) =
     (if running s then capture_frames (capture_step s rd) rds else s)"

text \<open>
  The end of one turn of \<open>process_frames\<close>: the result is put or dropped; and the
  turns of the loop one after another, given the result each turn has computed.
\<close>

definition put_result :: "pipeline \<Rightarrow> frame \<times> detection list \<Rightarrow> pipeline" where
  "put_result s r =
     (case put_nowait (result_queue s) r of
        Inr q \<Rightarrow> s\<lparr>result_queue := q\<rparr>
      | Inl _ \<Rightarrow> s)"

fun put_results :: "pipeline \<Rightarrow> (frame \<times> detection list) list \<Rightarrow> pipeline" where
  "put_results s [] = s"
| "put_results s (r # rs) = (if running s then put_results (put_result s r) rs else s)"

section \<open>utils/performance\_monitor.py\<close>

record performance_monitor =
  fps_samples :: "real deque"
  last_frame_time :: real
  process_times :: "real deque"
  process_start_time :: "real option"
  memory_samples :: "real deque"
  track_memory :: bool
  temperature_samples :: "real deque"
  track_temperature :: bool

definition PerformanceMonitor :: "nat \<Rightarrow> real \<Rightarrow> bool \<Rightarrow> bool \<Rightarrow> performance_monitor" where
  "PerformanceMonitor max_samples now has_psutil has_thermal =
     \<lparr>fps_samples = deque_new max_samples,
      last_frame_time = now,
      process_times = deque_new max_samples,
      process_start_time = None,
      memory_samples = deque_new max_samples,
      track_memory = has_psutil,
      temperature_samples = deque_new max_samples,
      track_temperature = has_thermal\<rparr>"

definition update_fps :: "performance_monitor \<Rightarrow> real \<Rightarrow> performance_monitor" where
  "update_fps pm current_time =
     (let elapsed = current_time - last_frame_time pm;
          pm1 = pm\<lparr>last_frame_time := current_time\<rparr>
      in if 0 < elapsed
         then pm1\<lparr>fps_samples := deque_append (fps_samples pm1) (1 / elapsed)\<rparr>
         else pm1)"

definition start_process_timer :: "performance_monitor \<Rightarrow> real \<Rightarrow> performance_monitor" where
  "start_process_timer pm now = pm\<lparr>process_start_time := Some now\<rparr>"

text \<open>
  \<open>stop_process_timer\<close>: \<open>now\<close> and \<open>now2\<close> are the two readings of the clock (its own
  and the one inside \<open>update_fps\<close>), \<open>rss\<close> the resident set size in bytes, \<open>temp\<close> the
  content of the thermal zone file, \<open>None\<close> when it cannot be read or parsed.
\<close>

definition stop_process_timer ::
  "performance_monitor \<Rightarrow> real \<Rightarrow> real \<Rightarrow> real \<Rightarrow> real option \<Rightarrow> performance_monitor" where
  "stop_process_timer pm now now2 rss temp =
     (case process_start_time pm of
        None \<Rightarrow> pm
      | Some start \<Rightarrow>
          (let elapsed = now - start;
               pm1 = pm\<lparr>process_times := deque_append (process_times pm) elapsed\<rparr>;
               pm2 = pm1\<lparr>process_start_time := None\<rparr>;
               pm3 = update_fps pm2 now2;
               pm4 = (if track_memory pm3
                      then pm3\<lparr>memory_samples :=
                                 deque_append (memory_samples pm3) (rss / 1024 / 1024)\<rparr>
                      else pm3)
           in if track_temperature pm4
              then (case temp of
                      None \<Rightarrow> pm4
                    | Some t \<Rightarrow> pm4\<lparr>temperature_samples :=
                                       deque_append (temperature_samples pm4) (t / 1000)\<rparr>)
              else pm4))"

definition mean :: "real list \<Rightarrow> real" where
  "mean xs = sum_list xs / real (length xs)"

definition get_process_time :: "performance_monitor \<Rightarrow> real" where
  "get_process_time pm =
     (if elems (process_times pm) = [] then 0 else mean (elems (process_times pm)) * 1000)"

definition get_fps :: "performance_monitor \<Rightarrow> real" where
  "get_fps pm = (if elems (fps_samples pm) = [] then 0 else mean (elems (fps_samples pm)))"

text \<open>
  The calls \<open>process_frames\<close> makes on the monitor, frame after frame:
  \<open>start_process_timer\<close> at the first clock reading of a pair and \<open>stop_process_timer\<close>
  at the second. The memory and temperature readings do not enter the timing window
  and are fixed.
\<close>

fun time_frames :: "performance_monitor \<Rightarrow> (real \<times> real) list \<Rightarrow> performance_monitor" where
  "time_frames pm [] = pm"
| "time_frames pm ((t0, t1) # ts) =
     time_frames (stop_process_timer (start_process_timer pm t0) t1 t1 0 None) ts"

section \<open>Auxiliary definitions and example data\<close>

text \<open>
  The definitions of this section are not part of the program: they are the inputs at
  which the properties are evaluated and the notions in which they are stated.
\<close>

definition unit_square :: "point list" where
  "unit_square = [(0, 0), (0, 10), (10, 10), (10, 0)]"

definition mk_zone :: "point list \<Rightarrow> bool \<Rightarrow> zone" where
  "mk_zone ps en =
     \<lparr>name = ''Z'', polygon = Polygon ps, points = ps, color = (0, 0, 255), alert_enabled = en\<rparr>"

definition three_zones :: zones where
  "three_zones =
     [(''a'', mk_zone unit_square False),
      (''b'', mk_zone unit_square True),
      (''c'', mk_zone unit_square True)]"

definition triangle10 :: "point list" where
  "triangle10 = [(0, 0), (0, 10), (10, 10)]"

definition triangle20 :: "point list" where
  "triangle20 = [(0, 0), (0, 20), (20, 20)]"

definition z1_zones :: zones where
  "z1_zones = snd (add_zone [] ''z1'' ''Z'' triangle10 None None)"

definition two_zone_config :: "(string, zone_config) dict" where
  "two_zone_config =
     [(''short'', \<lparr>cfg_name = None, cfg_points = Some [(0, 0), (0, 1)],
                    cfg_color = None, cfg_alert_enabled = None\<rparr>),
      (''good'', \<lparr>cfg_name = Some ''G'', cfg_points = Some triangle10,
                   cfg_color = None, cfg_alert_enabled = None\<rparr>),
      (''nopoints'', \<lparr>cfg_name = None, cfg_points = None,
                       cfg_color = None, cfg_alert_enabled = None\<rparr>)]"

text \<open>The zone that \<open>update_zone\<close> leaves behind when it is given at least three points.\<close>

definition rebuilt :: "zone \<Rightarrow> point list \<Rightarrow> bool option \<Rightarrow> colour option \<Rightarrow> zone" where
  "rebuilt z pts ao co =
     z\<lparr>points := pts, polygon := Polygon pts,
       alert_enabled := get_default ao (alert_enabled z),
       color := get_default co (color z)\<rparr>"

text \<open>
  The effects of one dispatch, in the order \<open>send_alert\<close> performs them: the image,
  the metadata, and one thread per enabled channel.
\<close>

definition alert_effects :: "alert_manager \<Rightarrow> string \<Rightarrow> frame \<Rightarrow> detection list \<Rightarrow> effect list" where
  "alert_effects am stamp frm detections =
     [ImWrite (alerts_dir am @ ''/alert_'' @ stamp @ ''.jpg'') frm,
      JsonDump (alerts_dir am @ ''/alert_'' @ stamp @ ''.json'') detections]
     @ (if email_enabled am
        then [ThreadStart Email (alerts_dir am @ ''/alert_'' @ stamp @ ''.jpg'') detections]
        else [])
     @ (if telegram_enabled am
        then [ThreadStart Telegram (alerts_dir am @ ''/alert_'' @ stamp @ ''.jpg'') detections]
        else [])"

text \<open>A run of dispatch attempts, one after another, with the results in order.\<close>

fun send_alerts ::
  "alert_manager \<Rightarrow> (real \<times> string \<times> frame \<times> detection list) list \<Rightarrow> bool list \<times> alert_manager" where
  "send_alerts am [] = ([], am)"
| "send_alerts am ((t, stamp, frm, detections) # rest) =
     (case send_alert am t stamp frm detections of
        (r, am1) \<Rightarrow> (case send_alerts am1 rest of (rs, am2) \<Rightarrow> (r # rs, am2)))"

definition images_written :: "alert_manager \<Rightarrow> nat" where
  "images_written am = length (filter (\<lambda>(h, e). is_image e) (trace am))"

definition metadata_written :: "alert_manager \<Rightarrow> nat" where
  "metadata_written am = length (filter (\<lambda>(h, e). is_metadata e) (trace am))"

definition default_alerts :: alerts_config where
  "default_alerts =
     \<lparr>cfg_enabled = None, cfg_cooldown_seconds = None, cfg_email_enabled = None,
      cfg_telegram_enabled = None, cfg_history_dir = None\<rparr>"

definition disabled_alerts :: alerts_config where
  "disabled_alerts = default_alerts\<lparr>cfg_enabled := Some False\<rparr>"

definition email_alerts :: alerts_config where
  "email_alerts = default_alerts\<lparr>cfg_email_enabled := Some True\<rparr>"

definition example_box :: box where
  "example_box = \<lparr>xyxy = (10, 10, 30, 50), conf = 9 / 10, cls = 0\<rparr>"

definition feet_zone :: zones where
  "feet_zone = [(''floor'', mk_zone [(0, 40), (0, 60), (40, 60), (40, 40)] True)]"

definition person_names :: "nat \<Rightarrow> string" where
  "person_names c = (if c = 0 then ''person'' else ''object'')"

definition fixed_clock :: "nat \<Rightarrow> string" where
  "fixed_clock i = ''2024-01-01T00:00:00''"

definition frames_of :: "nat list \<Rightarrow> frame list" where
  "frames_of ns = map (\<lambda>n. Frame [n]) ns"

definition running_system :: "int \<Rightarrow> pipeline" where
  "running_system n = (IntruderDetectionSystem n True)\<lparr>running := True\<rparr>"

definition four_frames :: "(real \<times> real) list" where
  "four_frames = [(0, 1 / 10), (1, 12 / 10), (2, 23 / 10), (3, 34 / 10)]"

section \<open>Properties\<close>

declare contains.simps [simp del]

lemmas geometry_defs = contains.simps edges_def cross_def on_segment_def ray_crosses_def

lemma dict_get_dict_set: "dict_get (dict_set d k v) k' = (if k' = k then Some v else dict_get d k')"
  by (induction d) auto

lemma dict_set_same: "dict_get d k = Some v \<Longrightarrow> dict_set d k v = d"
  by (induction d) (auto split: if_splits)

lemma dict_set_twice: "dict_set (dict_set d k a) k b = dict_set d k b"
  by (induction d) auto

lemma dict_get_None_iff: "dict_get d k = None \<longleftrightarrow> k \<notin> fst ` set d"
  by (induction d) (auto split: if_splits)

lemma dict_set_fresh: "dict_get d k = None \<Longrightarrow> dict_set d k v = d @ [(k, v)]"
  by (induction d) (auto split: if_splits)

lemma keys_dict_set_present: "dict_get d k \<noteq> None \<Longrightarrow> map fst (dict_set d k v) = map fst d"
  by (induction d) auto

lemma set_dict_set: "set (dict_set d k v) \<subseteq> insert (k, v) (set d)"
  by (induction d) (auto split: if_splits)

lemma set_dict_del: "set (dict_del d k) \<subseteq> set d"
  by (induction d) (auto split: if_splits)

lemma dict_get_in_set: "dict_get d k = Some v \<Longrightarrow> (k, v) \<in> set d"
  by (induction d) (auto split: if_splits)

lemma dict_get_distinct: "distinct (map fst d) \<Longrightarrow> (k, v) \<in> set d \<Longrightarrow> dict_get d k = Some v"
  by (induction d) (auto simp: rev_image_eqI)

lemma check_find:
  "check_point_in_zones zs p =
     map_option fst (find (\<lambda>(k, z). alert_enabled z \<and> contains (polygon z) p) zs)"
  by (induction zs) (auto split: if_splits)

lemma square_in: "contains (Polygon [(0,0),(0,10),(10,10),(10,0)]) (5,5)"
  by (simp add: geometry_defs)

lemma square_out: "\<not> contains (Polygon [(0,0),(0,10),(10,10),(10,0)]) (15,15)"
  by (simp add: geometry_defs)


lemma check_Some_iff:
  "check_point_in_zones zs p = Some zid \<longleftrightarrow>
     (\<exists>i<length zs. fst (zs ! i) = zid \<and>
        alert_enabled (snd (zs ! i)) \<and> contains (polygon (snd (zs ! i))) p \<and>
        (\<forall>j<i. \<not> (alert_enabled (snd (zs ! j)) \<and> contains (polygon (snd (zs ! j))) p)))"
proof -
  let ?P = "\<lambda>e. alert_enabled (snd e) \<and> contains (polygon (snd e)) p"
  have c: "check_point_in_zones zs p = map_option fst (find ?P zs)"
    by (simp add: check_find case_prod_unfold)
  have "check_point_in_zones zs p = Some zid \<longleftrightarrow> (\<exists>x. find ?P zs = Some x \<and> fst x = zid)"
    unfolding c by (cases "find ?P zs") auto
  also have "\<dots> \<longleftrightarrow> (\<exists>i<length zs. fst (zs ! i) = zid \<and> ?P (zs ! i) \<and> (\<forall>j<i. \<not> ?P (zs ! j)))"
    unfolding find_Some_iff by blast
  finally show ?thesis by simp
qed

lemma check_None_iff:
  "check_point_in_zones zs p = None \<longleftrightarrow>
     (\<forall>i<length zs. \<not> (alert_enabled (snd (zs ! i)) \<and> contains (polygon (snd (zs ! i))) p))"
proof -
  let ?P = "\<lambda>e. alert_enabled (snd e) \<and> contains (polygon (snd e)) p"
  have c: "check_point_in_zones zs p = map_option fst (find ?P zs)"
    by (simp add: check_find case_prod_unfold)
  have "check_point_in_zones zs p = None \<longleftrightarrow> (\<forall>x\<in>set zs. \<not> ?P x)"
    unfolding c by (auto simp: find_None_iff)
  also have "\<dots> \<longleftrightarrow> (\<forall>i<length zs. \<not> ?P (zs ! i))"
    by (simp add: all_set_conv_all_nth)
  finally show ?thesis by simp
qed

text \<open>
  Claim C1. \<open>check_point_in_zones\<close> walks the zone table in insertion order and returns
  the id of the first zone that is enabled and whose polygon contains the point: the
  result is \<open>Some zid\<close> exactly when some position \<open>i\<close> of the table holds \<open>zid\<close> with an
  enabled zone containing the point and no earlier position does; a zone whose
  \<open>alert_enabled\<close> is false is therefore never returned; the result is \<open>None\<close> exactly
  when no enabled zone contains the point. For the polygon \<open>[[0,0],[0,10],[10,10],[10,0]]\<close>
  the point \<open>(5,5)\<close> is matched when the zone is enabled and \<open>(15,15)\<close> is not, and a
  disabled zone matches no point at all.
\<close>

theorem check_point_in_zones_first_enabled_match:
  "(check_point_in_zones zs p = Some zid \<longleftrightarrow>
      (\<exists>i<length zs. fst (zs ! i) = zid \<and>
         alert_enabled (snd (zs ! i)) \<and> contains (polygon (snd (zs ! i))) p \<and>
         (\<forall>j<i. \<not> (alert_enabled (snd (zs ! j)) \<and> contains (polygon (snd (zs ! j))) p))))
   \<and> (check_point_in_zones zs p = None \<longleftrightarrow>
      (\<forall>i<length zs. \<not> (alert_enabled (snd (zs ! i)) \<and> contains (polygon (snd (zs ! i))) p)))
   \<and> (polygon z = Polygon [(0, 0), (0, 10), (10, 10), (10, 0)] \<longrightarrow>
        check_point_in_zones [(k, z)] (5, 5) = (if alert_enabled z then Some k else None) \<and>
        check_point_in_zones [(k, z)] (15, 15) = None)
   \<and> (\<not> alert_enabled z \<longrightarrow> check_point_in_zones [(k, z)] q = None)"
proof -
  have "polygon z = Polygon [(0, 0), (0, 10), (10, 10), (10, 0)] \<Longrightarrow>
        check_point_in_zones [(k, z)] (5, 5) = (if alert_enabled z then Some k else None)"
    using square_in by simp
  moreover have "polygon z = Polygon [(0, 0), (0, 10), (10, 10), (10, 0)] \<Longrightarrow>
        check_point_in_zones [(k, z)] (15, 15) = None"
    using square_out by simp
  moreover have "\<not> alert_enabled z \<Longrightarrow> check_point_in_zones [(k, z)] q = None"
    by simp
  ultimately show ?thesis
    using check_Some_iff [of zs p zid] check_None_iff [of zs p] by blast
qed

lemma three_zones_hit: "check_point_in_zones three_zones (5, 5) = Some ''b''"
  by (simp add: three_zones_def mk_zone_def unit_square_def geometry_defs)

text \<open>
  The statement of C1 at a table of three overlapping squares whose first zone is
  disabled: the second zone is the one returned for \<open>(5,5)\<close>.
\<close>

theorem check_point_in_zones_first_enabled_match_witness:
  "check_point_in_zones three_zones (5, 5) = Some ''b''
   \<and> (\<exists>i<length three_zones. fst (three_zones ! i) = ''b'' \<and>
         alert_enabled (snd (three_zones ! i)) \<and>
         contains (polygon (snd (three_zones ! i))) (5, 5) \<and>
         (\<forall>j<i. \<not> (alert_enabled (snd (three_zones ! j)) \<and>
                     contains (polygon (snd (three_zones ! j))) (5, 5))))
   \<and> polygon (mk_zone unit_square False) = Polygon [(0, 0), (0, 10), (10, 10), (10, 0)]
   \<and> \<not> alert_enabled (mk_zone unit_square False)
   \<and> check_point_in_zones [(''a'', mk_zone unit_square False)] (5, 5) = None
   \<and> check_point_in_zones [(''a'', mk_zone unit_square False)] (15, 15) = None"
proof -
  have z: "polygon (mk_zone unit_square False) = Polygon [(0, 0), (0, 10), (10, 10), (10, 0)]"
    "\<not> alert_enabled (mk_zone unit_square False)"
    by (simp_all add: mk_zone_def unit_square_def)
  show ?thesis
    using check_point_in_zones_first_enabled_match
            [of three_zones "(5, 5)" "''b''" "mk_zone unit_square False" "''a''" "(5, 5)"]
          three_zones_hit z
    by auto
qed

lemma zones_ok_iff: "zones_ok zs \<longleftrightarrow> (\<forall>(k, z)\<in>set zs. 3 \<le> length (points z) \<and> polygon z = Polygon (points z))"
  by (simp add: zones_ok_def list_all_iff)

lemma zones_ok_dict_set:
  "zones_ok zs \<Longrightarrow> 3 \<le> length (points z) \<Longrightarrow> polygon z = Polygon (points z) \<Longrightarrow>
   zones_ok (dict_set zs k z)"
  using set_dict_set [of zs k z] by (auto simp: zones_ok_iff)

lemma zones_ok_dict_del: "zones_ok zs \<Longrightarrow> zones_ok (dict_del zs k)"
  using set_dict_del [of zs k] by (auto simp: zones_ok_iff)

lemma zones_ok_dict_get: "zones_ok zs \<Longrightarrow> dict_get zs k = Some z \<Longrightarrow>
   3 \<le> length (points z) \<and> polygon z = Polygon (points z)"
  using dict_get_in_set [of zs k z] by (auto simp: zones_ok_iff)

lemma zones_ok_load_zones: "zones_ok zs \<Longrightarrow> zones_ok (load_zones zs cfg)"
proof (induction cfg arbitrary: zs)
  case Nil
  then show ?case by simp
next
  case (Cons e cfg)
  obtain k d where e: "e = (k, d)" by (cases e)
  show ?case
    unfolding e using Cons.prems
    by (auto simp: Let_def intro!: Cons.IH zones_ok_dict_set)
qed

lemma zones_ok_add_zone: "zones_ok zs \<Longrightarrow> zones_ok (snd (add_zone zs zid nm pts col ae))"
  by (auto simp: add_zone_def intro!: zones_ok_dict_set)

lemma zones_ok_update_zone: "zones_ok zs \<Longrightarrow> zones_ok (snd (update_zone zs zid po ao co))"
  by (auto simp: update_zone_def Let_def split: option.splits
           intro!: zones_ok_dict_set dest: zones_ok_dict_get)

lemma zones_ok_remove_zone: "zones_ok zs \<Longrightarrow> zones_ok (snd (remove_zone zs zid))"
  by (auto simp: remove_zone_def intro: zones_ok_dict_del)

lemma keys_load_zones:
  "distinct (map fst cfg) \<Longrightarrow> fst ` set zs \<inter> fst ` set cfg = {} \<Longrightarrow>
   map fst (load_zones zs cfg) =
     map fst zs @ map fst (filter (\<lambda>(k, d). 3 \<le> length (get_default (cfg_points d) [])) cfg)"
proof (induction cfg arbitrary: zs)
  case Nil
  then show ?case by simp
next
  case (Cons e cfg)
  obtain k d where e: "e = (k, d)" by (cases e)
  have fresh: "dict_get zs k = None"
    using Cons.prems(2) by (auto simp: e dict_get_None_iff)
  show ?case
  proof (cases "length (get_default (cfg_points d) []) < 3")
    case True
    with Cons show ?thesis by (auto simp: e)
  next
    case False
    let ?z = "\<lparr>name = get_default (cfg_name d) k,
               polygon = Polygon (get_default (cfg_points d) []),
               points = get_default (cfg_points d) [],
               color = get_default (cfg_color d) (0, 0, 255),
               alert_enabled = get_default (cfg_alert_enabled d) True\<rparr>"
    have "fst ` set (zs @ [(k, ?z)]) \<inter> fst ` set cfg = {}"
      using Cons.prems by (auto simp: e)
    with Cons.IH [of "zs @ [(k, ?z)]"] Cons.prems(1) False fresh
    show ?thesis by (simp add: e dict_set_fresh Let_def)
  qed
qed

text \<open>
  Claim C6. Every zone in the table has at least three vertices (its stored points,
  from which its polygon is built), and every operation keeps it so: the table built
  by the constructor has the property, and \<open>load_zones\<close>, \<open>add_zone\<close>, \<open>update_zone\<close> and
  \<open>remove_zone\<close> preserve it. \<open>add_zone\<close> rejects a point list shorter than three, and
  \<open>load_zones\<close> skips the configured zones with fewer than three points one by one: of
  a configuration it loads exactly the zones with at least three points, in order.
\<close>

theorem stored_zones_have_three_vertices:
  assumes "zones_ok zs"
  shows "zones_ok (ZoneManager cfg)
    \<and> zones_ok (load_zones zs cfg)
    \<and> zones_ok (snd (add_zone zs zid nm pts col ae))
    \<and> zones_ok (snd (update_zone zs uid po ao co))
    \<and> zones_ok (snd (remove_zone zs rid))
    \<and> (length pts < 3 \<longrightarrow> add_zone zs zid nm pts col ae = (False, zs))
    \<and> (distinct (map fst cfg) \<longrightarrow>
          map fst (ZoneManager cfg) =
            map fst (filter (\<lambda>(k, d). 3 \<le> length (get_default (cfg_points d) [])) cfg))"
proof -
  have "zones_ok []" by (simp add: zones_ok_def)
  then have "zones_ok (ZoneManager cfg)"
    unfolding ZoneManager_def by (rule zones_ok_load_zones)
  moreover have "length pts < 3 \<Longrightarrow> add_zone zs zid nm pts col ae = (False, zs)"
    by (simp add: add_zone_def)
  moreover have "distinct (map fst cfg) \<Longrightarrow>
          map fst (ZoneManager cfg) =
            map fst (filter (\<lambda>(k, d). 3 \<le> length (get_default (cfg_points d) [])) cfg)"
    using keys_load_zones [of cfg "[]"] by (simp add: ZoneManager_def)
  ultimately show ?thesis
    using assms zones_ok_load_zones zones_ok_add_zone zones_ok_update_zone zones_ok_remove_zone
    by blast
qed

lemmas zone_example_defs =
  z1_zones_def two_zone_config_def triangle10_def triangle20_def add_zone_def update_zone_def
  remove_zone_def ZoneManager_def zones_ok_def get_default_def

text \<open>
  C6 at a table with one triangle and a configuration whose first and last entries
  are too short: only the entry in the middle is loaded.
\<close>

theorem stored_zones_have_three_vertices_witness:
  "zones_ok z1_zones
   \<and> zones_ok (ZoneManager two_zone_config)
   \<and> zones_ok (load_zones z1_zones two_zone_config)
   \<and> zones_ok (snd (add_zone z1_zones ''z2'' ''Y'' [(0, 0), (0, 1)] None None))
   \<and> zones_ok (snd (update_zone z1_zones ''z1'' (Some [(0, 0), (0, 1)]) None None))
   \<and> zones_ok (snd (remove_zone z1_zones ''z1''))
   \<and> add_zone z1_zones ''z2'' ''Y'' [(0, 0), (0, 1)] None None = (False, z1_zones)
   \<and> distinct (map fst two_zone_config)
   \<and> map fst (ZoneManager two_zone_config) = [''good'']"
proof -
  have h: "zones_ok z1_zones"
    by (simp add: zone_example_defs)
  have d: "distinct (map fst two_zone_config)"
    by (simp add: two_zone_config_def)
  have f: "map fst (filter (\<lambda>(k, d). 3 \<le> length (get_default (cfg_points d) [])) two_zone_config)
           = [''good'']"
    by (simp add: two_zone_config_def triangle10_def get_default_def)
  show ?thesis
    using stored_zones_have_three_vertices
            [OF h, of two_zone_config "''z2''" "''Y''" "[(0, 0), (0, 1)]" None None
               "''z1''" "Some [(0, 0), (0, 1)]" None None "''z1''"] h d f
    by simp
qed

text \<open>
  Claim C7 as stated fails: \<open>update_zone\<close> with two points on an existing zone reports
  success, yet the polygon is not rebuilt from the supplied points; it stays the old
  triangle, and \<open>check_point_in_zones\<close> still answers from the old triangle.
\<close>

theorem update_zone_short_points_counterexample:
  "dict_get z1_zones ''z1'' \<noteq> None
   \<and> fst (update_zone z1_zones ''z1'' (Some [(0, 0), (0, 20)]) None None) = True
   \<and> map_option polygon
        (dict_get (snd (update_zone z1_zones ''z1'' (Some [(0, 0), (0, 20)]) None None)) ''z1'')
       \<noteq> Some (Polygon [(0, 0), (0, 20)])
   \<and> map_option polygon
        (dict_get (snd (update_zone z1_zones ''z1'' (Some [(0, 0), (0, 20)]) None None)) ''z1'')
       = Some (Polygon [(0, 0), (0, 10), (10, 10)])
   \<and> check_point_in_zones
        (snd (update_zone z1_zones ''z1'' (Some [(0, 0), (0, 20)]) None None)) (2, 5)
       = Some ''z1''"
  by (simp add: zone_example_defs geometry_defs)

lemma update_zone_unknown:
  "dict_get zs zid = None \<Longrightarrow> update_zone zs zid po ao co = (False, zs)"
  by (simp add: update_zone_def)

lemma update_zone_known:
  "dict_get zs zid = Some z \<Longrightarrow> 3 \<le> length pts \<Longrightarrow>
   update_zone zs zid (Some pts) ao co = (True, dict_set zs zid (rebuilt z pts ao co))"
  by (cases ao; cases co) (simp_all add: update_zone_def rebuilt_def get_default_def)

lemma keys_dict_set_known: "dict_get zs k = Some z \<Longrightarrow> map fst (dict_set zs k z') = map fst zs"
  by (simp add: keys_dict_set_present)

lemma check_Some_enabled_contains:
  "check_point_in_zones zs p = Some zid \<Longrightarrow>
   \<exists>z. (zid, z) \<in> set zs \<and> alert_enabled z \<and> contains (polygon z) p"
  by (induction zs) (auto split: if_splits)

lemma check_Some_dict_get:
  assumes "distinct (map fst zs)" "check_point_in_zones zs p = Some zid"
  shows "\<exists>z. dict_get zs zid = Some z \<and> alert_enabled z \<and> contains (polygon z) p"
  using check_Some_enabled_contains [OF assms(2)] dict_get_distinct [OF assms(1)] by blast

text \<open>
  Claim C7, amended. \<open>update_zone\<close> fails on an unknown id and leaves the table as it
  is. On an existing id, when a list of at least three points is supplied, it reports
  success, the zone's points and polygon are exactly the supplied ones, the order of
  the table and every other zone are unchanged, \<open>check_point_in_zones\<close> afterwards
  returns this zone only for points that the new polygon contains, and the table
  after the update does not depend on the vertices the zone had before.
\<close>

theorem update_zone_rebuilds_polygon_from_three_points:
  "(dict_get zs zid = None \<longrightarrow> update_zone zs zid po ao co = (False, zs))
   \<and> (dict_get zs zid = Some z \<and> 3 \<le> length pts \<longrightarrow>
        fst (update_zone zs zid (Some pts) ao co) = True
      \<and> (\<exists>z'. dict_get (snd (update_zone zs zid (Some pts) ao co)) zid = Some z'
              \<and> points z' = pts \<and> polygon z' = Polygon pts)
      \<and> map fst (snd (update_zone zs zid (Some pts) ao co)) = map fst zs
      \<and> (\<forall>k. k \<noteq> zid \<longrightarrow>
            dict_get (snd (update_zone zs zid (Some pts) ao co)) k = dict_get zs k)
      \<and> (distinct (map fst zs) \<longrightarrow>
            check_point_in_zones (snd (update_zone zs zid (Some pts) ao co)) p = Some zid \<longrightarrow>
            contains (Polygon pts) p)
      \<and> update_zone (dict_set zs zid (z\<lparr>points := old, polygon := Polygon old\<rparr>)) zid
            (Some pts) ao co
          = update_zone zs zid (Some pts) ao co)"
  (is "?unknown \<and> (?known \<longrightarrow> ?after)")
proof (intro conjI impI)
  show "update_zone zs zid po ao co = (False, zs)" if "dict_get zs zid = None"
    using that by (rule update_zone_unknown)
next
  assume "?known"
  then have z: "dict_get zs zid = Some z" and n: "3 \<le> length pts"
    by simp_all
  let ?z' = "rebuilt z pts ao co"
  let ?old = "z\<lparr>points := old, polygon := Polygon old\<rparr>"
  have u: "update_zone zs zid (Some pts) ao co = (True, dict_set zs zid ?z')"
    by (rule update_zone_known [OF z n])
  have g: "dict_get (dict_set zs zid ?z') zid = Some ?z'"
    by (simp add: dict_get_dict_set)
  have p: "points ?z' = pts" "polygon ?z' = Polygon pts"
    by (simp_all add: rebuilt_def)
  have k: "map fst (dict_set zs zid ?z') = map fst zs"
    by (rule keys_dict_set_known [OF z])
  have "dict_get (dict_set zs zid ?old) zid = Some ?old"
    by (simp add: dict_get_dict_set)
  from update_zone_known [OF this n, of ao co]
  have e: "update_zone (dict_set zs zid ?old) zid (Some pts) ao co = (True, dict_set zs zid ?z')"
    by (simp add: dict_set_twice rebuilt_def)
  show "fst (update_zone zs zid (Some pts) ao co) = True"
    by (simp add: u)
  show "\<exists>z'. dict_get (snd (update_zone zs zid (Some pts) ao co)) zid = Some z'
              \<and> points z' = pts \<and> polygon z' = Polygon pts"
    unfolding u snd_conv using g p by blast
  show "map fst (snd (update_zone zs zid (Some pts) ao co)) = map fst zs"
    unfolding u snd_conv by (rule k)
  show "\<forall>k. k \<noteq> zid \<longrightarrow>
            dict_get (snd (update_zone zs zid (Some pts) ao co)) k = dict_get zs k"
    unfolding u snd_conv by (simp add: dict_get_dict_set)
  show "contains (Polygon pts) p"
    if d: "distinct (map fst zs)"
    and c: "check_point_in_zones (snd (update_zone zs zid (Some pts) ao co)) p = Some zid"
  proof -
    from d k have d': "distinct (map fst (dict_set zs zid ?z'))" by simp
    from c have c': "check_point_in_zones (dict_set zs zid ?z') p = Some zid"
      unfolding u snd_conv .
    from check_Some_dict_get [OF d' c'] g p show ?thesis by auto
  qed
  show "update_zone (dict_set zs zid ?old) zid (Some pts) ao co
          = update_zone zs zid (Some pts) ao co"
    unfolding u e ..
qed

text \<open>
  The amended C7 at the zone \<open>z1\<close> with triangle \<open>[[0,0],[0,10],[10,10]]\<close>, updated to
  \<open>[[0,0],[0,20],[20,20]]\<close>: the point \<open>(5,15)\<close>, outside the old triangle, is then found.
\<close>

theorem update_zone_rebuilds_polygon_from_three_points_witness:
  "dict_get z1_zones ''nope'' = None
   \<and> update_zone z1_zones ''nope'' (Some triangle20) None None = (False, z1_zones)
   \<and> dict_get z1_zones ''z1'' = Some (mk_zone triangle10 True)
   \<and> 3 \<le> length triangle20
   \<and> fst (update_zone z1_zones ''z1'' (Some triangle20) None None) = True
   \<and> (\<exists>z'. dict_get (snd (update_zone z1_zones ''z1'' (Some triangle20) None None)) ''z1''
               = Some z'
            \<and> points z' = triangle20 \<and> polygon z' = Polygon triangle20)
   \<and> distinct (map fst z1_zones)
   \<and> check_point_in_zones (snd (update_zone z1_zones ''z1'' (Some triangle20) None None)) (5, 15)
       = Some ''z1''
   \<and> contains (Polygon triangle20) (5, 15)
   \<and> check_point_in_zones z1_zones (5, 15) = None"
proof -
  have a: "dict_get z1_zones ''nope'' = None"
    by (simp add: zone_example_defs)
  have b: "dict_get z1_zones ''z1'' = Some (mk_zone triangle10 True)"
    by (simp add: zone_example_defs mk_zone_def)
  have c: "3 \<le> length triangle20"
    by (simp add: triangle20_def)
  have d: "distinct (map fst z1_zones)"
    by (simp add: zone_example_defs)
  have e: "check_point_in_zones
             (snd (update_zone z1_zones ''z1'' (Some triangle20) None None)) (5, 15) = Some ''z1''"
    by (simp add: zone_example_defs geometry_defs)
  have f: "check_point_in_zones z1_zones (5, 15) = None"
    by (simp add: zone_example_defs geometry_defs)
  show ?thesis
    using update_zone_rebuilds_polygon_from_three_points
            [of z1_zones "''nope''" "Some triangle20" None None
                "mk_zone triangle10 True" triangle20 "(5, 15)" triangle10]
          update_zone_rebuilds_polygon_from_three_points
            [of z1_zones "''z1''" "Some triangle20" None None
                "mk_zone triangle10 True" triangle20 "(5, 15)" triangle10]
          a b c d e f
    by blast
qed

text \<open>
  Claim C9. For an existing zone id, \<open>update_zone\<close> with a list of fewer than three
  points and no other argument returns \<open>True\<close> and leaves the whole table, hence the
  zone's points, polygon, colour and \<open>alert_enabled\<close>, unchanged.
\<close>

theorem update_zone_ignores_short_points:
  assumes "dict_get zs zid = Some z" and "length pts < 3"
  shows "update_zone zs zid (Some pts) None None = (True, zs)
    \<and> dict_get (snd (update_zone zs zid (Some pts) None None)) zid = Some z"
  using assms by (simp add: update_zone_def dict_set_same)

text \<open>C9 at the zone \<open>z1\<close> and a list of two points.\<close>

theorem update_zone_ignores_short_points_witness:
  "dict_get z1_zones ''z1'' = Some (mk_zone triangle10 True)
   \<and> length ([(0, 0), (0, 20)] :: point list) < 3
   \<and> update_zone z1_zones ''z1'' (Some [(0, 0), (0, 20)]) None None = (True, z1_zones)
   \<and> dict_get (snd (update_zone z1_zones ''z1'' (Some [(0, 0), (0, 20)]) None None)) ''z1''
       = Some (mk_zone triangle10 True)"
proof -
  have b: "dict_get z1_zones ''z1'' = Some (mk_zone triangle10 True)"
    by (simp add: zone_example_defs mk_zone_def)
  have c: "length ([(0, 0), (0, 20)] :: point list) < 3"
    by simp
  show ?thesis
    using update_zone_ignores_short_points [OF b c] b c by simp
qed

lemmas alert_example_defs =
  default_alerts_def disabled_alerts_def email_alerts_def AlertManager_def get_default_def

lemmas send_alert_defs = send_alert_def acquire_def release_def emit_def Let_def

lemma send_alert_disabled:
  "\<not> enabled am \<Longrightarrow> send_alert am now stamp frm dets = (False, am)"
  by (simp add: send_alert_def)

lemma send_alert_cooling:
  "enabled am \<Longrightarrow> now - last_alert_time am < cooldown_seconds am \<Longrightarrow>
   send_alert am now stamp frm dets = (False, am\<lparr>lock_held := False\<rparr>)"
  by (simp add: send_alert_defs)

lemma send_alert_dispatch:
  "enabled am \<Longrightarrow> \<not> now - last_alert_time am < cooldown_seconds am \<Longrightarrow>
   send_alert am now stamp frm dets =
     (True, am\<lparr>last_alert_time := now, lock_held := False,
               trace := trace am @ map (Pair True) (alert_effects am stamp frm dets)\<rparr>)"
  by (simp add: send_alert_defs alert_effects_def)

text \<open>
  Claim C2 as stated fails in two places. With the global \<open>enabled\<close> flag off and the
  cooldown long over (clock 1000, last alert 0, cooldown 60), \<open>send_alert\<close> returns
  false, does not set \<open>last_alert_time\<close> and persists nothing. And a fresh manager
  starts with \<open>last_alert_time = 0\<close>, so attempts at clock readings 0, 30 and 61 give
  false, false, true and one persisted alert.
\<close>

theorem send_alert_cooldown_counterexample:
  "\<not> (1000 - last_alert_time (AlertManager disabled_alerts)
        < cooldown_seconds (AlertManager disabled_alerts))
   \<and> fst (send_alert (AlertManager disabled_alerts) 1000 ''s'' (Frame []) []) = False
   \<and> last_alert_time (snd (send_alert (AlertManager disabled_alerts) 1000 ''s'' (Frame []) []))
       \<noteq> 1000
   \<and> trace (snd (send_alert (AlertManager disabled_alerts) 1000 ''s'' (Frame []) [])) = []
   \<and> fst (send_alerts (AlertManager default_alerts)
             [(0, ''s'', Frame [], []), (30, ''t'', Frame [], []), (61, ''u'', Frame [], [])])
       = [False, False, True]
   \<and> images_written (snd (send_alerts (AlertManager default_alerts)
             [(0, ''s'', Frame [], []), (30, ''t'', Frame [], []), (61, ''u'', Frame [], [])]))
       = 1"
  by (simp add: alert_example_defs send_alert_defs images_written_def is_image_def)

lemma send_alerts_three:
  assumes "enabled am" "cooldown_seconds am = 60" "60 \<le> t0 - last_alert_time am"
  shows "send_alerts am [(t0, s1, f1, d1), (t0 + 30, s2, f2, d2), (t0 + 61, s3, f3, d3)] =
    ([True, False, True],
     am\<lparr>last_alert_time := t0 + 61, lock_held := False,
        trace := trace am @ map (Pair True) (alert_effects am s1 f1 d1)
                          @ map (Pair True) (alert_effects am s3 f3 d3)\<rparr>)"
proof -
  let ?am1 = "am\<lparr>last_alert_time := t0, lock_held := False,
                   trace := trace am @ map (Pair True) (alert_effects am s1 f1 d1)\<rparr>"
  have 1: "send_alert am t0 s1 f1 d1 = (True, ?am1)"
    using assms by (intro send_alert_dispatch) simp_all
  have 2: "send_alert ?am1 (t0 + 30) s2 f2 d2 = (False, ?am1)"
    using assms send_alert_cooling [of ?am1 "t0 + 30" s2 f2 d2] by simp
  have 3: "send_alert ?am1 (t0 + 61) s3 f3 d3 =
     (True, ?am1\<lparr>last_alert_time := t0 + 61, lock_held := False,
        trace := trace ?am1 @ map (Pair True) (alert_effects ?am1 s3 f3 d3)\<rparr>)"
    using assms by (intro send_alert_dispatch) simp_all
  have e: "alert_effects ?am1 s3 f3 d3 = alert_effects am s3 f3 d3"
    by (simp add: alert_effects_def)
  show ?thesis
    by (simp add: 1 2 3 e)
qed

lemma images_in_effects:
  "length (filter ((\<lambda>(h, e). is_image e) \<circ> Pair True) (alert_effects am s f d)) = 1"
  by (simp add: alert_effects_def is_image_def)

lemma metadata_in_effects:
  "length (filter ((\<lambda>(h, e). is_metadata e) \<circ> Pair True) (alert_effects am s f d)) = 1"
  by (simp add: alert_effects_def is_metadata_def)

text \<open>
  Claim C2, amended. When alerts are enabled: if \<open>now - last_alert_time < cooldown_seconds\<close>
  then \<open>send_alert\<close> returns false, \<open>last_alert_time\<close> is unchanged and nothing is
  persisted or started; otherwise it sets \<open>last_alert_time = now\<close>, writes the snapshot
  and the detections record (and starts the enabled channels) and returns true. With
  a cooldown of 60 seconds and a first attempt at a clock reading \<open>t0\<close> that is at least
  60 seconds after \<open>last_alert_time\<close>, attempts at \<open>t0\<close>, \<open>t0 + 30\<close> and \<open>t0 + 61\<close> return
  true, false, true, and exactly two images and two metadata records are written.
\<close>

theorem send_alert_cooldown_gate:
  assumes "enabled am"
  shows "(now - last_alert_time am < cooldown_seconds am \<longrightarrow>
            fst (send_alert am now stamp frm dets) = False
          \<and> last_alert_time (snd (send_alert am now stamp frm dets)) = last_alert_time am
          \<and> trace (snd (send_alert am now stamp frm dets)) = trace am)
       \<and> (\<not> now - last_alert_time am < cooldown_seconds am \<longrightarrow>
            fst (send_alert am now stamp frm dets) = True
          \<and> last_alert_time (snd (send_alert am now stamp frm dets)) = now
          \<and> trace (snd (send_alert am now stamp frm dets))
              = trace am @ map (Pair True) (alert_effects am stamp frm dets))
       \<and> (cooldown_seconds am = 60 \<and> 60 \<le> t0 - last_alert_time am \<longrightarrow>
            fst (send_alerts am
                   [(t0, s1, f1, d1), (t0 + 30, s2, f2, d2), (t0 + 61, s3, f3, d3)])
              = [True, False, True]
          \<and> images_written (snd (send_alerts am
                   [(t0, s1, f1, d1), (t0 + 30, s2, f2, d2), (t0 + 61, s3, f3, d3)]))
              = images_written am + 2
          \<and> metadata_written (snd (send_alerts am
                   [(t0, s1, f1, d1), (t0 + 30, s2, f2, d2), (t0 + 61, s3, f3, d3)]))
              = metadata_written am + 2)"
proof (intro conjI impI)
  assume c: "now - last_alert_time am < cooldown_seconds am"
  show "fst (send_alert am now stamp frm dets) = False"
    and "last_alert_time (snd (send_alert am now stamp frm dets)) = last_alert_time am"
    and "trace (snd (send_alert am now stamp frm dets)) = trace am"
    by (simp_all add: send_alert_cooling [OF assms c])
next
  assume c: "\<not> now - last_alert_time am < cooldown_seconds am"
  show "fst (send_alert am now stamp frm dets) = True"
    and "last_alert_time (snd (send_alert am now stamp frm dets)) = now"
    and "trace (snd (send_alert am now stamp frm dets))
           = trace am @ map (Pair True) (alert_effects am stamp frm dets)"
    by (simp_all add: send_alert_dispatch [OF assms c])
next
  assume "cooldown_seconds am = 60 \<and> 60 \<le> t0 - last_alert_time am"
  then have h: "cooldown_seconds am = 60" "60 \<le> t0 - last_alert_time am"
    by simp_all
  note r = send_alerts_three [OF assms h, of s1 f1 d1 s2 f2 d2 s3 f3 d3]
  show "fst (send_alerts am
               [(t0, s1, f1, d1), (t0 + 30, s2, f2, d2), (t0 + 61, s3, f3, d3)])
          = [True, False, True]"
    unfolding r by simp
  show "images_written (snd (send_alerts am
               [(t0, s1, f1, d1), (t0 + 30, s2, f2, d2), (t0 + 61, s3, f3, d3)]))
          = images_written am + 2"
    unfolding r images_written_def by (simp add: images_in_effects)
  show "metadata_written (snd (send_alerts am
               [(t0, s1, f1, d1), (t0 + 30, s2, f2, d2), (t0 + 61, s3, f3, d3)]))
          = metadata_written am + 2"
    unfolding r metadata_written_def by (simp add: metadata_in_effects)
qed

text \<open>
  The amended C2 at a fresh manager with the default cooldown of 60 seconds and the
  clock at 1000, 1030 and 1061.
\<close>

theorem send_alert_cooldown_gate_witness:
  "enabled (AlertManager default_alerts)
   \<and> \<not> 1000 - last_alert_time (AlertManager default_alerts)
         < cooldown_seconds (AlertManager default_alerts)
   \<and> fst (send_alert (AlertManager default_alerts) 1000 ''s'' (Frame []) []) = True
   \<and> last_alert_time (snd (send_alert (AlertManager default_alerts) 1000 ''s'' (Frame []) []))
       = 1000
   \<and> cooldown_seconds (AlertManager default_alerts) = 60
   \<and> 60 \<le> 1000 - last_alert_time (AlertManager default_alerts)
   \<and> fst (send_alerts (AlertManager default_alerts)
             [(1000, ''s'', Frame [], []), (1000 + 30, ''t'', Frame [], []),
              (1000 + 61, ''u'', Frame [], [])])
       = [True, False, True]
   \<and> images_written (snd (send_alerts (AlertManager default_alerts)
             [(1000, ''s'', Frame [], []), (1000 + 30, ''t'', Frame [], []),
              (1000 + 61, ''u'', Frame [], [])]))
       = 2
   \<and> metadata_written (snd (send_alerts (AlertManager default_alerts)
             [(1000, ''s'', Frame [], []), (1000 + 30, ''t'', Frame [], []),
              (1000 + 61, ''u'', Frame [], [])]))
       = 2"
proof -
  have en: "enabled (AlertManager default_alerts)"
    by (simp add: alert_example_defs)
  have h: "\<not> 1000 - last_alert_time (AlertManager default_alerts)
         < cooldown_seconds (AlertManager default_alerts)"
    "cooldown_seconds (AlertManager default_alerts) = 60"
    "60 \<le> 1000 - last_alert_time (AlertManager default_alerts)"
    by (simp_all add: alert_example_defs)
  have z: "images_written (AlertManager default_alerts) = 0"
    "metadata_written (AlertManager default_alerts) = 0"
    by (simp_all add: alert_example_defs images_written_def metadata_written_def)
  show ?thesis
    using send_alert_cooldown_gate
            [OF en, of 1000 "''s''" "Frame []" "[]" 1000 "''s''" "Frame []" "[]"
               "''t''" "Frame []" "[]" "''u''" "Frame []" "[]"]
          en h z
    by simp
qed

text \<open>
  Claim C4 as stated fails: in a dispatch by a manager with the email channel on, the
  image, the metadata and the start of the channel thread are all performed while
  \<open>alert_lock\<close> is held.
\<close>

theorem send_alert_lock_counterexample:
  "\<not> lock_held (AlertManager email_alerts)
   \<and> trace (snd (send_alert (AlertManager email_alerts) 1000 ''s'' (Frame []) []))
       = [(True, ImWrite ''logs/alerts/alert_s.jpg'' (Frame [])),
          (True, JsonDump ''logs/alerts/alert_s.json'' []),
          (True, ThreadStart Email ''logs/alerts/alert_s.jpg'' [])]"
  by (simp add: alert_example_defs send_alert_defs)

text \<open>
  Claim C4, amended. In \<open>send_alert\<close> the cooldown mutex is held over the whole
  dispatch: everything \<open>send_alert\<close> adds to the trace is performed while the mutex is
  held; in a dispatch these are, in this order, the image, the metadata and the
  starts of the enabled channels' threads, following the read, check and set of
  \<open>last_alert_time\<close>; the mutex is released when \<open>send_alert\<close> returns.
\<close>

theorem send_alert_effects_under_lock:
  "(\<exists>new. trace (snd (send_alert am now stamp frm dets)) = trace am @ new \<and> list_all fst new)
   \<and> (enabled am \<longrightarrow> \<not> lock_held (snd (send_alert am now stamp frm dets)))
   \<and> (enabled am \<and> \<not> now - last_alert_time am < cooldown_seconds am \<longrightarrow>
        trace (snd (send_alert am now stamp frm dets))
          = trace am @ map (Pair True) (alert_effects am stamp frm dets)
      \<and> take 2 (alert_effects am stamp frm dets)
          = [ImWrite (alerts_dir am @ ''/alert_'' @ stamp @ ''.jpg'') frm,
             JsonDump (alerts_dir am @ ''/alert_'' @ stamp @ ''.json'') dets]
      \<and> last_alert_time (snd (send_alert am now stamp frm dets)) = now)"
proof -
  consider (off) "\<not> enabled am"
    | (cool) "enabled am" "now - last_alert_time am < cooldown_seconds am"
    | (go) "enabled am" "\<not> now - last_alert_time am < cooldown_seconds am"
    by blast
  then show ?thesis
  proof cases
    case off
    then show ?thesis by (simp add: send_alert_disabled)
  next
    case cool
    then show ?thesis by (simp add: send_alert_cooling)
  next
    case go
    have "list_all fst (map (Pair True) (alert_effects am stamp frm dets))"
      by (simp add: list_all_iff)
    with go show ?thesis
      by (simp add: send_alert_dispatch alert_effects_def)
  qed
qed

text \<open>The amended C4 at a manager with the email channel on and the clock at 1000.\<close>

theorem send_alert_effects_under_lock_witness:
  "enabled (AlertManager email_alerts)
   \<and> \<not> 1000 - last_alert_time (AlertManager email_alerts)
         < cooldown_seconds (AlertManager email_alerts)
   \<and> \<not> lock_held (snd (send_alert (AlertManager email_alerts) 1000 ''s'' (Frame []) []))
   \<and> trace (snd (send_alert (AlertManager email_alerts) 1000 ''s'' (Frame []) []))
       = trace (AlertManager email_alerts)
         @ map (Pair True) (alert_effects (AlertManager email_alerts) ''s'' (Frame []) [])
   \<and> alert_effects (AlertManager email_alerts) ''s'' (Frame []) []
       = [ImWrite ''logs/alerts/alert_s.jpg'' (Frame []),
          JsonDump ''logs/alerts/alert_s.json'' [],
          ThreadStart Email ''logs/alerts/alert_s.jpg'' []]"
proof -
  have en: "enabled (AlertManager email_alerts)"
    by (simp add: alert_example_defs)
  have h: "\<not> 1000 - last_alert_time (AlertManager email_alerts)
         < cooldown_seconds (AlertManager email_alerts)"
    by (simp add: alert_example_defs)
  have e: "alert_effects (AlertManager email_alerts) ''s'' (Frame []) []
       = [ImWrite ''logs/alerts/alert_s.jpg'' (Frame []),
          JsonDump ''logs/alerts/alert_s.json'' [],
          ThreadStart Email ''logs/alerts/alert_s.jpg'' []]"
    by (simp add: alert_example_defs alert_effects_def)
  show ?thesis
    using send_alert_effects_under_lock
            [of "AlertManager email_alerts" 1000 "''s''" "Frame []" "[]"] en h e
    by simp
qed

text \<open>
  Claim C10. When the global \<open>enabled\<close> flag of the alerts configuration is false,
  \<open>send_alert\<close> returns \<open>False\<close> for every input and changes nothing: the manager,
  with its \<open>last_alert_time\<close> and its record of written files and started threads, is
  the same afterwards, whatever the clock says.
\<close>

theorem send_alert_disabled_no_effect:
  assumes "cfg_enabled c = Some False"
  shows "\<not> enabled (AlertManager c)
    \<and> send_alert (AlertManager c) now stamp frm dets = (False, AlertManager c)
    \<and> (\<not> enabled am \<longrightarrow>
          send_alert am now stamp frm dets = (False, am)
        \<and> last_alert_time (snd (send_alert am now stamp frm dets)) = last_alert_time am
        \<and> trace (snd (send_alert am now stamp frm dets)) = trace am)"
  using assms by (simp add: send_alert_disabled AlertManager_def get_default_def)

text \<open>C10 at the default configuration with \<open>enabled\<close> set to false and the clock at 1000.\<close>

theorem send_alert_disabled_no_effect_witness:
  "cfg_enabled disabled_alerts = Some False
   \<and> \<not> enabled (AlertManager disabled_alerts)
   \<and> \<not> 1000 - last_alert_time (AlertManager disabled_alerts)
         < cooldown_seconds (AlertManager disabled_alerts)
   \<and> send_alert (AlertManager disabled_alerts) 1000 ''s'' (Frame []) []
       = (False, AlertManager disabled_alerts)
   \<and> trace (snd (send_alert (AlertManager disabled_alerts) 1000 ''s'' (Frame []) [])) = []"
proof -
  have c: "cfg_enabled disabled_alerts = Some False"
    by (simp add: alert_example_defs)
  have t: "trace (AlertManager disabled_alerts) = []"
    "\<not> 1000 - last_alert_time (AlertManager disabled_alerts)
         < cooldown_seconds (AlertManager disabled_alerts)"
    by (simp_all add: alert_example_defs)
  show ?thesis
    using send_alert_disabled_no_effect
            [OF c, of 1000 "''s''" "Frame []" "[]" "AlertManager disabled_alerts"] c t
    by simp
qed

lemma process_boxes_zone_ids:
  "map zone_id (process_boxes zs tc names clock i boxes) =
     map the (filter truthy
       (map (\<lambda>b. check_point_in_zones zs (feet_point (xyxy b)))
          (filter (\<lambda>b. cls b \<in> set tc) boxes)))"
  by (induction boxes arbitrary: i) (auto simp: feet_point_def Let_def split: prod.splits)

lemma process_boxes_bboxes:
  "map bbox (process_boxes zs tc names clock i boxes) =
     map xyxy (filter (\<lambda>b. cls b \<in> set tc \<and> truthy (check_point_in_zones zs (feet_point (xyxy b)))) boxes)"
  by (induction boxes arbitrary: i) (auto simp: feet_point_def Let_def split: prod.splits)

text \<open>
  Claim C3. For every box the point handed to \<open>check_point_in_zones\<close> is the bottom
  centre \<open>((x1 + x2) div 2, y2)\<close>: the horizontal middle, in whole pixels as Python's
  \<open>//\<close> gives it, on the lower edge. The box \<open>(10,10,30,50)\<close> yields \<open>(20,50)\<close>. A box of
  a target class becomes a detection exactly when the zone found at this point is a
  non-empty id, and that id is the detection's zone; the top edge \<open>y1\<close>, and with it
  the centroid, has no influence on the outcome. For a zone holding \<open>(20,50)\<close> but not
  the centroid \<open>(20,30)\<close>, the box \<open>(10,10,30,50)\<close> is reported.
\<close>

theorem feet_point_decides_zone:
  "feet_point (x1, y1, x2, y2) = ((x1 + x2) div 2, y2)
   \<and> 2 * fst (feet_point (x1, y1, x2, y2)) \<le> x1 + x2
   \<and> x1 + x2 \<le> 2 * fst (feet_point (x1, y1, x2, y2)) + 1
   \<and> feet_point (10, 10, 30, 50) = (20, 50)
   \<and> map zone_id (process_results zs tc names clock boxes) =
       map the (filter truthy
         (map (\<lambda>b. check_point_in_zones zs (feet_point (xyxy b)))
            (filter (\<lambda>b. cls b \<in> set tc) boxes)))
   \<and> map bbox (process_results zs tc names clock boxes) =
       map xyxy (filter (\<lambda>b. cls b \<in> set tc
                            \<and> truthy (check_point_in_zones zs (feet_point (xyxy b)))) boxes)
   \<and> map zone_id (process_results zs tc names clock [b\<lparr>xyxy := (x1, y1', x2, y2)\<rparr>]) =
       map zone_id (process_results zs tc names clock [b\<lparr>xyxy := (x1, y1, x2, y2)\<rparr>])
   \<and> check_point_in_zones feet_zone (20, 30) = None
   \<and> map zone_id (process_results feet_zone [0] person_names fixed_clock [example_box])
       = [''floor'']"
proof (intro conjI)
  show "feet_point (x1, y1, x2, y2) = ((x1 + x2) div 2, y2)"
    by (simp add: feet_point_def)
  show "2 * fst (feet_point (x1, y1, x2, y2)) \<le> x1 + x2"
    by (simp add: feet_point_def)
  show "x1 + x2 \<le> 2 * fst (feet_point (x1, y1, x2, y2)) + 1"
    by (simp add: feet_point_def)
  show "feet_point (10, 10, 30, 50) = (20, 50)"
    by (simp add: feet_point_def)
  show "map zone_id (process_results zs tc names clock boxes) =
       map the (filter truthy
         (map (\<lambda>b. check_point_in_zones zs (feet_point (xyxy b)))
            (filter (\<lambda>b. cls b \<in> set tc) boxes)))"
    unfolding process_results_def by (rule process_boxes_zone_ids)
  show "map bbox (process_results zs tc names clock boxes) =
       map xyxy (filter (\<lambda>b. cls b \<in> set tc
                            \<and> truthy (check_point_in_zones zs (feet_point (xyxy b)))) boxes)"
    unfolding process_results_def by (rule process_boxes_bboxes)
  show "map zone_id (process_results zs tc names clock [b\<lparr>xyxy := (x1, y1', x2, y2)\<rparr>]) =
       map zone_id (process_results zs tc names clock [b\<lparr>xyxy := (x1, y1, x2, y2)\<rparr>])"
    unfolding process_results_def process_boxes_zone_ids by (simp add: feet_point_def)
  show "check_point_in_zones feet_zone (20, 30) = None"
    by (simp add: feet_zone_def mk_zone_def geometry_defs)
  show "map zone_id (process_results feet_zone [0] person_names fixed_clock [example_box])
       = [''floor'']"
    by (simp add: process_results_def example_box_def feet_zone_def mk_zone_def geometry_defs
          truthy_def)
qed

lemma capture_step_full:
  "0 < maxsize (frame_queue s) \<Longrightarrow> maxsize (frame_queue s) \<le> int (length (items (frame_queue s))) \<Longrightarrow>
   capture_step s (Some f) = s\<lparr>frame_count := frame_count s + 1\<rparr>"
  by (simp add: capture_step_def put_nowait_def)

lemma capture_step_room:
  "int (length (items (frame_queue s))) < maxsize (frame_queue s) \<Longrightarrow>
   capture_step s (Some f) =
     s\<lparr>frame_queue := (frame_queue s)\<lparr>items := items (frame_queue s) @ [f]\<rparr>,
       frame_count := frame_count s + 1\<rparr>"
  by (simp add: capture_step_def put_nowait_def)

lemma capture_frames_bounded:
  assumes "running s" "0 < maxsize (frame_queue s)"
  shows "capture_frames s (map Some fs) =
     s\<lparr>frame_queue := (frame_queue s)\<lparr>items := items (frame_queue s)
          @ take (nat (maxsize (frame_queue s)) - length (items (frame_queue s))) fs\<rparr>,
       frame_count := frame_count s + length fs\<rparr>"
  using assms
proof (induction fs arbitrary: s)
  case Nil
  then show ?case by simp
next
  case (Cons f fs)
  let ?q = "frame_queue s"
  show ?case
  proof (cases "maxsize ?q \<le> int (length (items ?q))")
    case True
    then have z: "nat (maxsize ?q) - length (items ?q) = 0"
      by simp
    let ?s' = "s\<lparr>frame_count := frame_count s + 1\<rparr>"
    have st: "capture_step s (Some f) = ?s'"
      using Cons.prems True by (simp add: capture_step_full)
    have "running ?s'" "0 < maxsize (frame_queue ?s')"
      using Cons.prems by simp_all
    from Cons.IH [OF this] have "capture_frames ?s' (map Some fs) =
        ?s'\<lparr>frame_queue := ?q\<lparr>items := items ?q\<rparr>, frame_count := frame_count ?s' + length fs\<rparr>"
      by (simp add: z)
    then show ?thesis
      using Cons.prems(1) by (simp add: st z)
  next
    case False
    then have lt: "int (length (items ?q)) < maxsize ?q"
      by simp
    then have m: "nat (maxsize ?q) - length (items ?q)
                  = Suc (nat (maxsize ?q) - Suc (length (items ?q)))"
      by linarith
    let ?s' = "s\<lparr>frame_queue := ?q\<lparr>items := items ?q @ [f]\<rparr>, frame_count := frame_count s + 1\<rparr>"
    have st: "capture_step s (Some f) = ?s'"
      using lt by (simp add: capture_step_room)
    have "running ?s'" "0 < maxsize (frame_queue ?s')"
      using Cons.prems by simp_all
    from Cons.IH [OF this] have "capture_frames ?s' (map Some fs) =
        ?s'\<lparr>frame_queue := ?q\<lparr>items := items ?q @ f #
                 take (nat (maxsize ?q) - Suc (length (items ?q))) fs\<rparr>,
            frame_count := frame_count ?s' + length fs\<rparr>"
      by simp
    then show ?thesis
      using Cons.prems(1) by (simp add: st m)
  qed
qed

lemma put_result_full:
  "0 < maxsize (result_queue s) \<Longrightarrow> maxsize (result_queue s) \<le> int (length (items (result_queue s))) \<Longrightarrow>
   put_result s r = s"
  by (simp add: put_result_def put_nowait_def)

lemma put_result_room:
  "int (length (items (result_queue s))) < maxsize (result_queue s) \<Longrightarrow>
   put_result s r = s\<lparr>result_queue := (result_queue s)\<lparr>items := items (result_queue s) @ [r]\<rparr>\<rparr>"
  by (simp add: put_result_def put_nowait_def)

lemma put_results_bounded:
  assumes "running s" "0 < maxsize (result_queue s)"
  shows "put_results s rs =
     s\<lparr>result_queue := (result_queue s)\<lparr>items := items (result_queue s)
          @ take (nat (maxsize (result_queue s)) - length (items (result_queue s))) rs\<rparr>\<rparr>"
  using assms
proof (induction rs arbitrary: s)
  case Nil
  then show ?case by simp
next
  case (Cons r rs)
  let ?q = "result_queue s"
  show ?case
  proof (cases "maxsize ?q \<le> int (length (items ?q))")
    case True
    then have z: "nat (maxsize ?q) - length (items ?q) = 0"
      by simp
    have st: "put_result s r = s"
      using Cons.prems True by (simp add: put_result_full)
    from Cons.IH [OF Cons.prems] show ?thesis
      using Cons.prems(1) by (simp add: st z)
  next
    case False
    then have lt: "int (length (items ?q)) < maxsize ?q"
      by simp
    then have m: "nat (maxsize ?q) - length (items ?q)
                  = Suc (nat (maxsize ?q) - Suc (length (items ?q)))"
      by linarith
    let ?s' = "s\<lparr>result_queue := ?q\<lparr>items := items ?q @ [r]\<rparr>\<rparr>"
    have st: "put_result s r = ?s'"
      using lt by (simp add: put_result_room)
    have "running ?s'" "0 < maxsize (result_queue ?s')"
      using Cons.prems by simp_all
    from Cons.IH [OF this] have "put_results ?s' rs =
        ?s'\<lparr>result_queue := ?q\<lparr>items := items ?q @ r #
                 take (nat (maxsize ?q) - Suc (length (items ?q))) rs\<rparr>\<rparr>"
      by simp
    then show ?thesis
      using Cons.prems(1) by (simp add: st m)
  qed
qed

text \<open>
  Claim C5. For a bounded queue of capacity \<open>N\<close> (a \<open>maxsize\<close> of \<open>N > 0\<close>) that starts
  empty and is not drained, offering \<open>N + k\<close> items leaves exactly the first \<open>N\<close> in the
  queue: offer number \<open>i\<close> (counted from 0) finds the queue full exactly when \<open>N \<le> i\<close>, and
  then the item is dropped and the producer goes on: the capture loop has counted all
  \<open>N + k\<close> frames and is still running. This holds for the frame queue filled by
  \<open>capture_frames\<close> and for the result queue filled by \<open>process_frames\<close>.
\<close>

theorem full_queue_drops_newest:
  assumes "0 < N" and "running s"
    and "maxsize (frame_queue s) = int N" and "items (frame_queue s) = []"
    and "maxsize (result_queue s) = int N" and "items (result_queue s) = []"
    and "length fs = N + k" and "length rs = N + k"
  shows "items (frame_queue (capture_frames s (map Some fs))) = take N fs
    \<and> length (items (frame_queue (capture_frames s (map Some fs)))) = N
    \<and> frame_count (capture_frames s (map Some fs)) = frame_count s + (N + k)
    \<and> running (capture_frames s (map Some fs))
    \<and> (\<forall>i<N + k.
          (put_nowait (frame_queue (capture_frames s (map Some (take i fs)))) (fs ! i) = Inl Full)
            = (N \<le> i))
    \<and> items (result_queue (put_results s rs)) = take N rs
    \<and> running (put_results s rs)
    \<and> (\<forall>i<N + k.
          (put_nowait (result_queue (put_results s (take i rs))) (rs ! i) = Inl Full)
            = (N \<le> i))"
proof -
  have pos: "0 < maxsize (frame_queue s)" "0 < maxsize (result_queue s)"
    using assms by simp_all
  have cf: "capture_frames s (map Some xs) =
      s\<lparr>frame_queue := (frame_queue s)\<lparr>items := take N xs\<rparr>,
        frame_count := frame_count s + length xs\<rparr>" for xs
    using capture_frames_bounded [OF assms(2) pos(1), of xs] assms by simp
  have pr: "put_results s xs = s\<lparr>result_queue := (result_queue s)\<lparr>items := take N xs\<rparr>\<rparr>" for xs
    using put_results_bounded [OF assms(2) pos(2), of xs] assms by simp
  have a: "items (frame_queue (capture_frames s (map Some fs))) = take N fs"
    by (simp add: cf)
  have b: "length (items (frame_queue (capture_frames s (map Some fs)))) = N"
    using assms by (simp add: cf)
  have c: "frame_count (capture_frames s (map Some fs)) = frame_count s + (N + k)"
    using assms by (simp add: cf)
  have d: "running (capture_frames s (map Some fs))" "running (put_results s rs)"
    using assms by (simp_all add: cf pr)
  have e: "(put_nowait (frame_queue (capture_frames s (map Some (take i fs)))) (fs ! i) = Inl Full)
            = (N \<le> i)" if "i < N + k" for i
    using that assms by (auto simp: cf put_nowait_def min_def)
  have f: "items (result_queue (put_results s rs)) = take N rs"
    by (simp add: pr)
  have g: "(put_nowait (result_queue (put_results s (take i rs))) (rs ! i) = Inl Full)
            = (N \<le> i)" if "i < N + k" for i
    using that assms by (auto simp: pr put_nowait_def min_def)
  from a b c d e f g show ?thesis by blast
qed

text \<open>C5 for queues of capacity 2 and five offers.\<close>

theorem full_queue_drops_newest_witness:
  "(0::nat) < 2 \<and> running (running_system 2)
   \<and> maxsize (frame_queue (running_system 2)) = int 2
   \<and> items (frame_queue (running_system 2)) = []
   \<and> maxsize (result_queue (running_system 2)) = int 2
   \<and> items (result_queue (running_system 2)) = []
   \<and> length (frames_of [1, 2, 3, 4, 5]) = 2 + 3
   \<and> length (map (\<lambda>f. (f, [] :: detection list)) (frames_of [1, 2, 3, 4, 5])) = 2 + 3
   \<and> items (frame_queue (capture_frames (running_system 2) (map Some (frames_of [1, 2, 3, 4, 5]))))
       = [Frame [1], Frame [2]]
   \<and> frame_count (capture_frames (running_system 2) (map Some (frames_of [1, 2, 3, 4, 5]))) = 5
   \<and> items (result_queue (put_results (running_system 2)
                (map (\<lambda>f. (f, [])) (frames_of [1, 2, 3, 4, 5]))))
       = [(Frame [1], []), (Frame [2], [])]"
proof -
  have h: "(0::nat) < 2" "running (running_system 2)"
    "maxsize (frame_queue (running_system 2)) = int 2"
    "items (frame_queue (running_system 2)) = []"
    "maxsize (result_queue (running_system 2)) = int 2"
    "items (result_queue (running_system 2)) = []"
    "length (frames_of [1, 2, 3, 4, 5]) = 2 + 3"
    "length (map (\<lambda>f. (f, [] :: detection list)) (frames_of [1, 2, 3, 4, 5])) = 2 + 3"
    by (simp_all add: running_system_def IntruderDetectionSystem_def Queue_def frames_of_def)
  have t: "take 2 (frames_of [1, 2, 3, 4, 5]) = [Frame [1], Frame [2]]"
    "frame_count (running_system 2) = 0"
    by (simp_all add: frames_of_def running_system_def IntruderDetectionSystem_def)
  show ?thesis
    using full_queue_drops_newest [OF h] h t
    by (simp add: frames_of_def)
qed

lemma deque_append_maxlen: "maxlen (deque_append d x) = maxlen d"
  by (simp add: deque_append_def Let_def)

lemma drop_window:
  "drop (length (drop (length ys - m) ys @ [x]) - m) (drop (length ys - m) ys @ [x])
     = drop (length (ys @ [x]) - m) (ys @ [x])"
proof (cases "m \<le> length ys")
  case True
  then have 1: "length (drop (length ys - m) ys @ [x]) - m = Suc 0"
    by simp
  have 2: "length (ys @ [x]) - m = Suc 0 + (length ys - m)"
    using True by simp
  have 3: "drop (length ys - m) ys @ [x] = drop (length ys - m) (ys @ [x])"
    by simp
  have "drop (length (drop (length ys - m) ys @ [x]) - m) (drop (length ys - m) ys @ [x])
          = drop (Suc 0) (drop (length ys - m) ys @ [x])"
    by (simp only: 1)
  also have "\<dots> = drop (Suc 0) (drop (length ys - m) (ys @ [x]))"
    by (simp only: 3)
  also have "\<dots> = drop (Suc 0 + (length ys - m)) (ys @ [x])"
    by (simp only: drop_drop)
  also have "\<dots> = drop (length (ys @ [x]) - m) (ys @ [x])"
    by (simp only: 2)
  finally show ?thesis .
next
  case False
  then show ?thesis by simp
qed

lemma deque_append_elems:
  "elems (deque_append d x) = drop (length (elems d @ [x]) - maxlen d) (elems d @ [x])"
  if "length (elems d) \<le> maxlen d"
proof (cases "maxlen d < length (elems d @ [x])")
  case True
  with that have 1: "length (elems d @ [x]) - maxlen d = Suc 0"
    by simp
  have 2: "drop (Suc 0) (elems d @ [x]) = tl (elems d @ [x])"
    by (simp only: drop_Suc drop_0)
  from True show ?thesis
    unfolding 1 2 by (simp add: deque_append_def Let_def)
next
  case False
  then show ?thesis
    by (simp add: deque_append_def Let_def)
qed

lemma deque_feed:
  "length (elems d) \<le> maxlen d \<Longrightarrow>
   foldl deque_append d xs =
     d\<lparr>elems := drop (length (elems d @ xs) - maxlen d) (elems d @ xs)\<rparr>"
proof (induction xs rule: rev_induct)
  case Nil
  then show ?case by simp
next
  case (snoc x xs)
  let ?all = "elems d @ xs"
  let ?d' = "d\<lparr>elems := drop (length ?all - maxlen d) ?all\<rparr>"
  have f: "foldl deque_append d (xs @ [x]) = deque_append ?d' x"
    using snoc by simp
  have l: "length (elems ?d') \<le> maxlen ?d'"
    by simp
  have "elems (deque_append ?d' x)
          = drop (length (drop (length ?all - maxlen d) ?all @ [x]) - maxlen d)
              (drop (length ?all - maxlen d) ?all @ [x])"
    using deque_append_elems [OF l, of x] by simp
  also have "\<dots> = drop (length (?all @ [x]) - maxlen d) (?all @ [x])"
    by (rule drop_window)
  finally have e: "elems (deque_append ?d' x)
          = drop (length (elems d @ xs @ [x]) - maxlen d) (elems d @ xs @ [x])"
    by simp
  have "deque_append ?d' x = d\<lparr>elems := elems (deque_append ?d' x)\<rparr>"
    by (simp add: deque_append_def Let_def)
  then show ?case
    unfolding f e .
qed

lemma process_times_update_fps: "process_times (update_fps pm t) = process_times pm"
  by (simp add: update_fps_def Let_def)

lemma process_times_timed:
  "process_times (stop_process_timer (start_process_timer pm t0) t1 t2 rss temp)
     = deque_append (process_times pm) (t1 - t0)"
  by (simp add: stop_process_timer_def start_process_timer_def Let_def process_times_update_fps
        update_fps_def split: option.splits)

lemma process_times_time_frames:
  "process_times (time_frames pm ts) =
     foldl deque_append (process_times pm) (map (\<lambda>(t0, t1). t1 - t0) ts)"
  by (induction ts arbitrary: pm) (auto simp: process_times_timed)

text \<open>
  Claim C8. The window of processing times is a FIFO of fixed capacity: after any run
  of timed frames, a monitor created with capacity \<open>cap\<close> holds the last \<open>cap\<close> durations
  in order (the oldest are evicted), never more than \<open>cap\<close>. \<open>get_process_time\<close> is the
  mean of the window times 1000, and 0 for the empty window. With capacity 3 and the
  durations 0.1, 0.2, 0.3, 0.4 the window is \<open>[0.2, 0.3, 0.4]\<close>, its mean is 0.3, and
  \<open>get_process_time\<close> reports 300 milliseconds. Durations are real numbers here.
\<close>

theorem process_time_window_fifo_mean:
  "elems (process_times (time_frames (PerformanceMonitor cap now m th) ts))
     = drop (length ts - cap) (map (\<lambda>(t0, t1). t1 - t0) ts)
   \<and> length (elems (process_times (time_frames (PerformanceMonitor cap now m th) ts))) \<le> cap
   \<and> get_process_time pm =
       (if elems (process_times pm) = [] then 0
        else sum_list (elems (process_times pm)) / real (length (elems (process_times pm))) * 1000)
   \<and> get_process_time (PerformanceMonitor cap now m th) = 0
   \<and> map (\<lambda>(t0, t1). t1 - t0) four_frames = [1 / 10, 2 / 10, 3 / 10, 4 / 10]
   \<and> elems (process_times (time_frames (PerformanceMonitor 3 now m th) four_frames))
       = [2 / 10, 3 / 10, 4 / 10]
   \<and> mean [2 / 10, 3 / 10, 4 / 10] = 3 / 10
   \<and> get_process_time (time_frames (PerformanceMonitor 3 now m th) four_frames) = 300"
proof -
  have w: "process_times (time_frames (PerformanceMonitor cap now m th) ts)
      = \<lparr>maxlen = cap, elems = drop (length ts - cap) (map (\<lambda>(t0, t1). t1 - t0) ts)\<rparr>"
    for cap ts
    unfolding process_times_time_frames
    by (subst deque_feed) (simp_all add: PerformanceMonitor_def deque_new_def)
  have d: "map (\<lambda>(t0, t1). t1 - t0) four_frames = [1 / 10, 2 / 10, 3 / 10, 4 / 10]"
    by (simp add: four_frames_def)
  have l: "length four_frames = 4"
    by (simp add: four_frames_def)
  have e: "elems (process_times (time_frames (PerformanceMonitor 3 now m th) four_frames))
       = [2 / 10, 3 / 10, 4 / 10]"
    unfolding w d l by simp
  have "mean [2 / 10, 3 / 10, 4 / 10] = 3 / 10"
    by (simp add: mean_def)
  moreover have "get_process_time (time_frames (PerformanceMonitor 3 now m th) four_frames) = 300"
    unfolding get_process_time_def e by (simp add: mean_def)
  moreover have "get_process_time (PerformanceMonitor cap now m th) = 0"
    by (simp add: get_process_time_def PerformanceMonitor_def deque_new_def)
  moreover have "get_process_time pm =
       (if elems (process_times pm) = [] then 0
        else sum_list (elems (process_times pm)) / real (length (elems (process_times pm))) * 1000)"
    by (simp add: get_process_time_def mean_def)
  ultimately show ?thesis
    using d e by (simp add: w)
qed

end
